theory Spec2Isabelle
  imports Main "HOL-Library.Sublist"
begin

section \<open>Remote Docker Manager: the listing parser, the log parser and the command sequences\<close>

text \<open>
  The development follows \<^verbatim>\<open>main.go\<close>. A Go \<^verbatim>\<open>string\<close> is a sequence of bytes,
  here a \<^typ>\<open>string\<close> (a list of \<^typ>\<open>char\<close>, one per byte). A Go \<^verbatim>\<open>error\<close> is
  represented by its message, and a function returning \<^verbatim>\<open>(T, error)\<close> returns a
  value of \<^typ>\<open>string + 'a\<close>, \<^term>\<open>Inl\<close> carrying the message of the error. Where the
  program returns a value of \<open>T\<close> next to a non-nil error (\<^verbatim>\<open>[]Container{}\<close> in
  \<^verbatim>\<open>GetContainers\<close>), no caller reads that value, and the model leaves it out.
\<close>

subsection \<open>The functions of package \<^verbatim>\<open>strings\<close> that the program calls\<close>

text \<open>
  \<^verbatim>\<open>strings.Split(s, sep)\<close> is called with the one-byte separators \<^verbatim>\<open>"\n"\<close> and
  \<^verbatim>\<open>"|"\<close> only. It cuts \<open>s\<close> at every occurrence of the separator and returns
  the pieces between them, so the result has one more element than \<open>s\<close> has
  separators; it is never empty.
\<close>

fun Split :: "string \<Rightarrow> char \<Rightarrow> string list" where
  "Split [] sep = [[]]"
| "Split (c # cs) sep =
     (if c = sep then [] # Split cs sep
      else (case Split cs sep of
              [] \<Rightarrow> [[c]]
            | p # ps \<Rightarrow> (c # p) # ps))"

text \<open>
  \<^verbatim>\<open>strings.TrimSpace\<close> removes the leading and the trailing white space, as
  \<^verbatim>\<open>unicode.IsSpace\<close> defines it, from a UTF-8 string. The white-space code points
  are U+0009 to U+000D, U+0020, U+0085, U+00A0, U+1680, U+2000 to U+200A, U+2028,
  U+2029, U+202F, U+205F and U+3000; \<open>spaceRunes\<close> lists their UTF-8 encodings.
  A byte that is not part of a valid encoding decodes to U+FFFD, which is not white
  space, so a string starts (ends) with a white-space rune exactly when one of these
  encodings is a prefix (suffix) of it.
\<close>

definition spaceRunes :: "string list" where
  "spaceRunes =
     [[CHR 0x09], [CHR 0x0A], [CHR 0x0B], [CHR 0x0C], [CHR 0x0D], [CHR 0x20],
      [CHR 0xC2, CHR 0x85], [CHR 0xC2, CHR 0xA0],
      [CHR 0xE1, CHR 0x9A, CHR 0x80],
      [CHR 0xE2, CHR 0x80, CHR 0x80], [CHR 0xE2, CHR 0x80, CHR 0x81],
      [CHR 0xE2, CHR 0x80, CHR 0x82], [CHR 0xE2, CHR 0x80, CHR 0x83],
      [CHR 0xE2, CHR 0x80, CHR 0x84], [CHR 0xE2, CHR 0x80, CHR 0x85],
      [CHR 0xE2, CHR 0x80, CHR 0x86], [CHR 0xE2, CHR 0x80, CHR 0x87],
      [CHR 0xE2, CHR 0x80, CHR 0x88], [CHR 0xE2, CHR 0x80, CHR 0x89],
      [CHR 0xE2, CHR 0x80, CHR 0x8A],
      [CHR 0xE2, CHR 0x80, CHR 0xA8], [CHR 0xE2, CHR 0x80, CHR 0xA9],
      [CHR 0xE2, CHR 0x80, CHR 0xAF],
      [CHR 0xE2, CHR 0x81, CHR 0x9F],
      [CHR 0xE3, CHR 0x80, CHR 0x80]]"

definition leadingSpace :: "string \<Rightarrow> string option" where
  "leadingSpace s = find (\<lambda>w. prefix w s) spaceRunes"

definition trailingSpace :: "string \<Rightarrow> string option" where
  "trailingSpace s = find (\<lambda>w. suffix w s) spaceRunes"

lemma leadingSpace_SomeD:
  "leadingSpace s = Some w \<Longrightarrow> w \<in> set spaceRunes \<and> prefix w s"
  unfolding leadingSpace_def by (auto simp: find_Some_iff)

lemma trailingSpace_SomeD:
  "trailingSpace s = Some w \<Longrightarrow> w \<in> set spaceRunes \<and> suffix w s"
  unfolding trailingSpace_def by (auto simp: find_Some_iff)

lemma spaceRunes_nonempty: "w \<in> set spaceRunes \<Longrightarrow> w \<noteq> []"
  unfolding spaceRunes_def by auto

function TrimLeft :: "string \<Rightarrow> string" where
  "TrimLeft s =
     (case leadingSpace s of
        None \<Rightarrow> s
      | Some w \<Rightarrow> TrimLeft (drop (length w) s))"
  by pat_completeness auto
termination
proof (relation "measure length")
  show "wf (measure length)" by simp
next
  fix s w :: string
  assume "leadingSpace s = Some w"
  then have "w \<in> set spaceRunes" and "prefix w s"
    by (simp_all add: leadingSpace_SomeD)
  then have "0 < length w \<and> length w \<le> length s"
    by (auto simp: prefix_def dest: spaceRunes_nonempty)
  then show "(drop (length w) s, s) \<in> measure length" by (cases w) auto
qed

function TrimRight :: "string \<Rightarrow> string" where
  "TrimRight s =
     (case trailingSpace s of
        None \<Rightarrow> s
      | Some w \<Rightarrow> TrimRight (take (length s - length w) s))"
  by pat_completeness auto
termination
proof (relation "measure length")
  show "wf (measure length)" by simp
next
  fix s w :: string
  assume "trailingSpace s = Some w"
  then have "w \<in> set spaceRunes" and "suffix w s"
    by (simp_all add: trailingSpace_SomeD)
  then have "0 < length w \<and> length w \<le> length s"
    by (auto simp: suffix_def dest: spaceRunes_nonempty)
  then show "(take (length s - length w) s, s) \<in> measure length" by (cases w) auto
qed

declare TrimLeft.simps [simp del] TrimRight.simps [simp del]

definition TrimSpace :: "string \<Rightarrow> string" where
  "TrimSpace s = TrimRight (TrimLeft s)"

text \<open>
  \<^verbatim>\<open>strings.ToLower\<close> has two paths. A string of ASCII bytes only is mapped byte by
  byte, \<open>A\<close> to \<open>Z\<close> becoming \<open>a\<close> to \<open>z\<close>. Any other string goes through
  \<^verbatim>\<open>strings.Map(unicode.ToLower, s)\<close>, which depends on the case tables of package
  \<^verbatim>\<open>unicode\<close>; that path is the parameter \<open>unicodeLower\<close> of the model.
\<close>

definition asciiLower :: "char \<Rightarrow> char" where
  "asciiLower c =
     (if (0x41::nat) \<le> of_char c \<and> of_char c \<le> (0x5A::nat)
      then char_of (of_char c + (0x20::nat)) else c)"

definition ToLower :: "(string \<Rightarrow> string) \<Rightarrow> string \<Rightarrow> string" where
  "ToLower unicodeLower s =
     (if list_all (\<lambda>c. of_char c < (0x80::nat)) s then map asciiLower s
      else unicodeLower s)"

text \<open>\<^verbatim>\<open>strings.Contains(s, substr)\<close>: \<open>substr\<close> occurs somewhere in \<open>s\<close>.\<close>

fun Contains :: "string \<Rightarrow> string \<Rightarrow> bool" where
  "Contains [] substr = (substr = [])"
| "Contains (c # cs) substr = (prefix substr (c # cs) \<or> Contains cs substr)"

subsection \<open>The data model\<close>

record ServerConfig =
  Host :: string
  Port :: string
  Username :: string
  Password :: string

record Container =
  ID :: string
  Name :: string
  Image :: string
  Status :: string
  State :: string
  Created :: string
  Ports :: string

record ContainerLog =
  Log :: string

record DockerManager =
  config :: ServerConfig

text \<open>
  A Go slice is nil or holds a sequence of elements, and the two differ when the
  slice is empty: \<^verbatim>\<open>encoding/json\<close> writes a nil slice as \<^verbatim>\<open>null\<close> and the empty slice
  \<^verbatim>\<open>[]T{}\<close> as \<^verbatim>\<open>[]\<close>. A variable declared \<^verbatim>\<open>var s []T\<close> is nil, and stays nil until
  the first \<^verbatim>\<open>append\<close>; \<open>appended xs\<close> is its value after the elements \<open>xs\<close> have
  been appended to it one by one.
\<close>

datatype 'a slice = NilSlice | Slice "'a list"

fun len :: "'a slice \<Rightarrow> nat" where
  "len NilSlice = 0"
| "len (Slice xs) = length xs"

definition appended :: "'a list \<Rightarrow> 'a slice" where
  "appended xs = (if xs = [] then NilSlice else Slice xs)"

subsection \<open>The output parsers\<close>

definition getStateFromStatus :: "(string \<Rightarrow> string) \<Rightarrow> string \<Rightarrow> string" where
  "getStateFromStatus unicodeLower status =
     (if Contains (ToLower unicodeLower status) ''up'' then ''running'' else ''stopped'')"

text \<open>
  The loop of \<^verbatim>\<open>GetContainers\<close> over the lines of the structured listing. The third
  argument lists the elements appended so far to the slice \<^verbatim>\<open>containers\<close>, which is
  declared nil before the loop.
\<close>

fun GetContainers_loop ::
  "(string \<Rightarrow> string) \<Rightarrow> string list \<Rightarrow> Container list \<Rightarrow> Container list" where
  "GetContainers_loop unicodeLower [] containers = containers"
| "GetContainers_loop unicodeLower (l # lines) containers =
     (let line = TrimSpace l in
      if line = [] then GetContainers_loop unicodeLower lines containers
      else
        let parts = Split line (CHR ''|'') in
        if length parts \<ge> 5 then
          let container = \<lparr>ID = TrimSpace (parts ! 0),
                           Name = TrimSpace (parts ! 1),
                           Image = TrimSpace (parts ! 2),
                           Status = TrimSpace (parts ! 3),
                           State = getStateFromStatus unicodeLower (TrimSpace (parts ! 3)),
                           Created = TrimSpace (parts ! 4),
                           Ports = []\<rparr>;
              container = (if length parts > 5
                           then container\<lparr>Ports := TrimSpace (parts ! 5)\<rparr>
                           else container)
          in GetContainers_loop unicodeLower lines (containers @ [container])
        else GetContainers_loop unicodeLower lines containers)"

text \<open>The loop of \<^verbatim>\<open>LogContainers\<close> over the lines of the log tail.\<close>

fun LogContainers_loop :: "string list \<Rightarrow> ContainerLog list \<Rightarrow> ContainerLog list" where
  "LogContainers_loop [] containers = containers"
| "LogContainers_loop (l # lines) containers =
     (let line = TrimSpace l in
      if line = [] then LogContainers_loop lines containers
      else
        let parts = line in
        if length parts \<ge> 1 then
          let container = \<lparr>Log = parts\<rparr>
          in LogContainers_loop lines (containers @ [container])
        else LogContainers_loop lines containers)"

subsection \<open>The remote session\<close>

text \<open>
  \<^verbatim>\<open>executeSSHCommand\<close> dials the host of the configuration, opens a session and runs
  one command. What the network and the remote host answer is outside the program: it
  is the parameter \<open>ssh\<close>, a function from the configuration, the command and the
  state \<open>'w\<close> of the outside world to one of the four outcomes below and the next
  state of the world. The lines the program writes to its own log and standard output
  (\<^verbatim>\<open>log.Printf\<close>, \<^verbatim>\<open>fmt.Println\<close>) are left out: no result depends on them.
\<close>

datatype ssh_outcome =
    DialFailed string             \<comment> \<open>\<^verbatim>\<open>ssh.Dial\<close> returned this error\<close>
  | NewSessionFailed string       \<comment> \<open>\<^verbatim>\<open>client.NewSession\<close> returned this error\<close>
  | RunFailed string string       \<comment> \<open>\<^verbatim>\<open>session.Run\<close> returned this error, with this stderr\<close>
  | RunOk string                  \<comment> \<open>\<^verbatim>\<open>session.Run\<close> returned nil, with this stdout\<close>

type_synonym 'w transport = "ServerConfig \<Rightarrow> string \<Rightarrow> 'w \<Rightarrow> ssh_outcome \<times> 'w"

text \<open>
  The state of the server process: the global \<^verbatim>\<open>dockerManager\<close> (\<open>None\<close> for nil),
  the outside world, and \<open>issued\<close>, the commands handed to \<^verbatim>\<open>session.Run\<close> so far,
  oldest first. The program does not keep \<open>issued\<close>; it records the order of the
  remote commands.
\<close>

record 'w server =
  dockerManager :: "DockerManager option"
  world :: 'w
  issued :: "string list"

definition executeSSHCommand ::
  "'w transport \<Rightarrow> DockerManager \<Rightarrow> string \<Rightarrow> 'w server \<Rightarrow> (string + string) \<times> 'w server" where
  "executeSSHCommand ssh dm command st =
     (let address = Host (config dm) @ '':'' @ Port (config dm) in
      case ssh (config dm) command (world st) of
        (DialFailed err, w) \<Rightarrow>
          (Inl (''SSH connection to '' @ address @ '' failed: '' @ err), st\<lparr>world := w\<rparr>)
      | (NewSessionFailed err, w) \<Rightarrow>
          (Inl (''SSH session creation failed: '' @ err), st\<lparr>world := w\<rparr>)
      | (RunFailed err errorOutput, w) \<Rightarrow>
          (if errorOutput \<noteq> []
           then Inl (''command '' @ [CHR 0x27] @ command @ [CHR 0x27] @ '' failed: '' @ err
                     @ '', stderr: '' @ errorOutput)
           else Inl (''command '' @ [CHR 0x27] @ command @ [CHR 0x27] @ '' failed: '' @ err),
           st\<lparr>world := w, issued := issued st @ [command]\<rparr>)
      | (RunOk output, w) \<Rightarrow>
          (Inr output, st\<lparr>world := w, issued := issued st @ [command]\<rparr>))"

subsection \<open>The operations of \<^verbatim>\<open>DockerManager\<close>\<close>

definition structuredListing :: string where
  "structuredListing =
     ''docker ps -a --format '' @ [CHR 0x27]
     @ ''{{.ID}}|{{.Names}}|{{.Image}}|{{.Status}}|{{.CreatedAt}}|{{.Ports}}'' @ [CHR 0x27]"

definition GetContainers ::
  "(string \<Rightarrow> string) \<Rightarrow> 'w transport \<Rightarrow> DockerManager \<Rightarrow> 'w server
     \<Rightarrow> (string + Container slice) \<times> 'w server" where
  "GetContainers unicodeLower ssh dm st =
     (case executeSSHCommand ssh dm ''which docker'' st of
        (Inl err, st) \<Rightarrow> (Inl (''Docker is not installed or not in PATH: '' @ err), st)
      | (Inr _, st) \<Rightarrow>
     (case executeSSHCommand ssh dm ''docker info'' st of
        (Inl err, st) \<Rightarrow>
          (Inl (''Docker daemon is not running or permission denied: '' @ err), st)
      | (Inr _, st) \<Rightarrow>
     (case executeSSHCommand ssh dm ''docker ps -a'' st of
        (Inl err, st) \<Rightarrow> (Inl (''Docker ps command failed: '' @ err), st)
      | (Inr output, st) \<Rightarrow>
          if TrimSpace output = [] then (Inl ''Docker ps returned empty output'', st)
          else
     (case executeSSHCommand ssh dm structuredListing st of
        (Inl err, st) \<Rightarrow> (Inl (''Docker ps formatted command failed: '' @ err), st)
      | (Inr formattedOutput, st) \<Rightarrow>
          (Inr (appended (GetContainers_loop unicodeLower (Split formattedOutput (CHR 0x0A)) [])),
           st)))))"

definition LogContainers ::
  "'w transport \<Rightarrow> DockerManager \<Rightarrow> string \<Rightarrow> 'w server
     \<Rightarrow> (string + ContainerLog slice) \<times> 'w server" where
  "LogContainers ssh dm containerId st =
     (case executeSSHCommand ssh dm ''which docker'' st of
        (Inl err, st) \<Rightarrow> (Inl (''Docker is not installed or not in PATH: '' @ err), st)
      | (Inr _, st) \<Rightarrow>
     (case executeSSHCommand ssh dm
             (''docker logs  --tail 20 '' @ containerId @ '' 2>&1 | grep -v ''
              @ [CHR 0x27] @ ''^$'' @ [CHR 0x27]) st of
        (Inl err, st) \<Rightarrow> (Inl (''Docker ps formatted command failed: '' @ err), st)
      | (Inr formattedOutput, st) \<Rightarrow>
          (Inr (appended (LogContainers_loop (Split formattedOutput (CHR 0x0A)) [])), st)))"

text \<open>
  The four lifecycle operations return \<^verbatim>\<open>error\<close> only: \<open>None\<close> is nil, \<open>Some\<close>
  carries the message.
\<close>

definition errorOnly :: "(string + string) \<times> 'w server \<Rightarrow> string option \<times> 'w server" where
  "errorOnly r = (case r of (Inl err, st) \<Rightarrow> (Some err, st) | (Inr _, st) \<Rightarrow> (None, st))"

definition StartContainer ::
  "'w transport \<Rightarrow> DockerManager \<Rightarrow> string \<Rightarrow> 'w server \<Rightarrow> string option \<times> 'w server" where
  "StartContainer ssh dm containerID st =
     errorOnly (executeSSHCommand ssh dm (''docker start '' @ containerID) st)"

definition StopContainer ::
  "'w transport \<Rightarrow> DockerManager \<Rightarrow> string \<Rightarrow> 'w server \<Rightarrow> string option \<times> 'w server" where
  "StopContainer ssh dm containerID st =
     errorOnly (executeSSHCommand ssh dm (''docker stop '' @ containerID) st)"

definition RestartContainer ::
  "'w transport \<Rightarrow> DockerManager \<Rightarrow> string \<Rightarrow> 'w server \<Rightarrow> string option \<times> 'w server" where
  "RestartContainer ssh dm containerID st =
     errorOnly (executeSSHCommand ssh dm (''docker restart '' @ containerID) st)"

definition RemoveContainer ::
  "'w transport \<Rightarrow> DockerManager \<Rightarrow> string \<Rightarrow> 'w server \<Rightarrow> string option \<times> 'w server" where
  "RemoveContainer ssh dm containerID st =
     errorOnly (executeSSHCommand ssh dm (''docker rm -f '' @ containerID) st)"

subsection \<open>The HTTP handlers\<close>

text \<open>
  A request as the handlers read it: the method, the route variables
  (\<^verbatim>\<open>mux.Vars(r)\<close>, a Go map, where a missing key reads as the empty string), and the
  result of decoding the JSON body into a \<^verbatim>\<open>ServerConfig\<close> (\<open>None\<close> when the decoder
  returns an error).
\<close>

record Request =
  Method :: string
  Vars :: "string \<rightharpoonup> string"
  Body :: "ServerConfig option"

definition vars :: "Request \<Rightarrow> string \<Rightarrow> string" where
  "vars r k = (case Vars r k of None \<Rightarrow> [] | Some v \<Rightarrow> v)"

datatype Response =
    HttpError nat string
      \<comment> \<open>\<^verbatim>\<open>http.Error(w, text, code)\<close>\<close>
  | Failure string
      \<comment> \<open>\<^verbatim>\<open>{"success": false, "error": e}\<close>\<close>
  | FailureContainers string "Container slice"
      \<comment> \<open>\<^verbatim>\<open>{"success": false, "error": e, "containers": cs}\<close>\<close>
  | SuccessMessage string
      \<comment> \<open>\<^verbatim>\<open>{"success": true, "message": m}\<close>\<close>
  | SuccessContainers "Container slice" nat
      \<comment> \<open>\<^verbatim>\<open>{"success": true, "containers": cs, "count": n}\<close>\<close>

definition containersHandler ::
  "(string \<Rightarrow> string) \<Rightarrow> 'w transport \<Rightarrow> Request \<Rightarrow> 'w server \<Rightarrow> Response \<times> 'w server" where
  "containersHandler unicodeLower ssh r st =
     (case dockerManager st of
        None \<Rightarrow>
          (FailureContainers ''No server configuration found. Please configure server first.''
             (Slice []),
           st)
      | Some dm \<Rightarrow>
          (case GetContainers unicodeLower ssh dm st of
             (Inl err, st) \<Rightarrow> (FailureContainers err (Slice []), st)
           | (Inr containers, st) \<Rightarrow> (SuccessContainers containers (len containers), st)))"

text \<open>
  What \<^verbatim>\<open>containerActionHandler\<close> answers after the \<^verbatim>\<open>switch\<close>, from the \<^verbatim>\<open>err\<close> of
  the operation it has called.
\<close>

definition actionResponse :: "string option \<times> 'w server \<Rightarrow> Response \<times> 'w server" where
  "actionResponse r =
     (case r of
        (Some err, st) \<Rightarrow> (Failure err, st)
      | (None, st) \<Rightarrow> (SuccessMessage ''Action completed successfully'', st))"

definition containerActionHandler ::
  "'w transport \<Rightarrow> Request \<Rightarrow> 'w server \<Rightarrow> Response \<times> 'w server" where
  "containerActionHandler ssh r st =
     (if Method r \<noteq> ''POST'' then (HttpError 405 ''Method not allowed'', st)
      else case dockerManager st of
        None \<Rightarrow> (Failure ''No server configuration found'', st)
      | Some dm \<Rightarrow>
          let containerID = vars r ''id'';
              action = vars r ''action''
          in if action = ''start'' then actionResponse (StartContainer ssh dm containerID st)
             else if action = ''stop'' then actionResponse (StopContainer ssh dm containerID st)
             else if action = ''restart''
               then actionResponse (RestartContainer ssh dm containerID st)
             else if action = ''remove''
               then actionResponse (RemoveContainer ssh dm containerID st)
             else (Failure (''Unknown action: '' @ action), st))"

definition whoamiTest :: string where
  "whoamiTest = ''whoami && echo '' @ [CHR 0x27] @ ''SSH connection successful'' @ [CHR 0x27]"

definition configHandler ::
  "'w transport \<Rightarrow> Request \<Rightarrow> 'w server \<Rightarrow> Response \<times> 'w server" where
  "configHandler ssh r st =
     (if Method r \<noteq> ''POST'' then (HttpError 405 ''Method not allowed'', st)
      else case Body r of
        None \<Rightarrow> (Failure ''Invalid JSON format'', st)
      | Some cfg \<Rightarrow>
          if Host cfg = [] \<or> Username cfg = [] \<or> Password cfg = []
          then (Failure ''Host, username and password are required'', st)
          else
            let cfg = (if Port cfg = [] then cfg\<lparr>Port := ''22''\<rparr> else cfg);
                dm = \<lparr>config = cfg\<rparr>;
                st = st\<lparr>dockerManager := Some dm\<rparr>
            in case executeSSHCommand ssh dm whoamiTest st of
                 (Inl err, st) \<Rightarrow> (Failure (''SSH connection failed: '' @ err), st)
               | (Inr testOutput, st) \<Rightarrow>
                   (case executeSSHCommand ssh dm ''docker --version'' st of
                      (Inl err, st) \<Rightarrow> (Failure (''Docker is not available: '' @ err), st)
                    | (Inr dockerOutput, st) \<Rightarrow>
                        (SuccessMessage ''Configuration saved successfully'', st)))"

subsection \<open>A scripted remote host\<close>

text \<open>
  A transport for concrete runs: the remote host answers each command as the table
  says and fails with \<open>command not found\<close> on any other command. Its world has no
  state.
\<close>

definition scripted :: "(string \<times> ssh_outcome) list \<Rightarrow> unit transport" where
  "scripted answers cfg command w =
     (case map_of answers command of
        Some outcome \<Rightarrow> (outcome, w)
      | None \<Rightarrow> (RunFailed ''Process exited with status 127'' ''command not found'', w))"

text \<open>Concrete configurations, server states, hosts and requests for the examples.\<close>

definition exampleManager :: DockerManager where
  "exampleManager =
     \<lparr>config = \<lparr>Host = ''10.0.0.5'', Port = ''22'', Username = ''ops'', Password = ''secret''\<rparr>\<rparr>"

definition exampleServer :: "unit server" where
  "exampleServer = \<lparr>dockerManager = Some exampleManager, world = (), issued = []\<rparr>"

definition freshServer :: "unit server" where
  "freshServer = \<lparr>dockerManager = None, world = (), issued = []\<rparr>"

definition healthyHost :: "unit transport" where
  "healthyHost =
     scripted [(''which docker'', RunOk ''/usr/bin/docker''),
               (''docker info'', RunOk ''Server Version: 24.0.7''),
               (''docker ps -a'',
                RunOk ''CONTAINER ID   IMAGE   COMMAND   CREATED   STATUS   PORTS   NAMES''),
               (structuredListing, RunOk [])]"

definition silentHost :: "unit transport" where
  "silentHost =
     scripted [(''which docker'', RunOk ''/usr/bin/docker''),
               (''docker info'', RunOk ''Server Version: 24.0.7''),
               (''docker ps -a'', RunOk ''  \<newline>'')]"

definition noProbeHost :: "unit transport" where
  "noProbeHost =
     scripted [(whoamiTest, RunOk ''ops\<newline>SSH connection successful\<newline>''),
               (''docker --version'', RunOk ''Docker version 24.0.7, build afdd53b''),
               (''docker start abc123'', RunOk ''abc123''),
               (''docker rm -f abc123'', RunOk ''abc123'')]"

definition listRequest :: Request where
  "listRequest = \<lparr>Method = ''GET'', Vars = Map.empty, Body = None\<rparr>"

definition pauseRequest :: Request where
  "pauseRequest =
     \<lparr>Method = ''POST'', Vars = [''id'' \<mapsto> ''abc123'', ''action'' \<mapsto> ''pause''], Body = None\<rparr>"

definition configRequest :: Request where
  "configRequest =
     \<lparr>Method = ''POST'', Vars = Map.empty,
      Body = Some \<lparr>Host = ''10.0.0.5'', Port = [], Username = ''ops'', Password = ''secret''\<rparr>\<rparr>"

section \<open>Properties of the parsers\<close>

text \<open>
  In the statements below, \<open>U\<close> is the path of \<^verbatim>\<open>strings.ToLower\<close> through the case
  tables of package \<^verbatim>\<open>unicode\<close>, the first parameter of \<open>ToLower\<close>: every statement holds
  whatever that path returns. The concrete runs take the identity for it; their
  statuses are ASCII, where it is not used.
\<close>

subsection \<open>Substrings, and the two loops as maps over the lines\<close>

lemma Contains_iff: "Contains s sub \<longleftrightarrow> (\<exists>a b. s = a @ sub @ b)"
proof (induction s)
  case Nil
  then show ?case by auto
next
  case (Cons c cs)
  show ?case
  proof
    assume "Contains (c # cs) sub"
    then consider "prefix sub (c # cs)" | "Contains cs sub" by auto
    then show "\<exists>a b. c # cs = a @ sub @ b"
    proof cases
      case 1
      then obtain b where "c # cs = sub @ b" by (auto simp: prefix_def)
      then have "c # cs = [] @ sub @ b" by simp
      then show ?thesis by blast
    next
      case 2
      with Cons.IH obtain a b where "cs = a @ sub @ b" by blast
      then have "c # cs = (c # a) @ sub @ b" by simp
      then show ?thesis by blast
    qed
  next
    assume "\<exists>a b. c # cs = a @ sub @ b"
    then obtain a b where ab: "c # cs = a @ sub @ b" by blast
    show "Contains (c # cs) sub"
    proof (cases a)
      case Nil
      with ab have "prefix sub (c # cs)" by (simp add: prefix_def)
      then show ?thesis by simp
    next
      case (Cons x a')
      with ab have "cs = a' @ sub @ b" by simp
      with Cons.IH have "Contains cs sub" by blast
      then show ?thesis by simp
    qed
  qed
qed

lemma LogContainers_loop_acc:
  "LogContainers_loop lines acc =
     acc @ map (\<lambda>l. \<lparr>Log = l\<rparr>) (filter (\<lambda>l. l \<noteq> []) (map TrimSpace lines))"
  by (induction lines arbitrary: acc) (auto simp: Let_def Suc_le_eq)

lemma GetContainers_loop_acc:
  "GetContainers_loop U lines acc = acc @ GetContainers_loop U lines []"
proof (induction lines arbitrary: acc)
  case Nil
  show ?case by simp
next
  case (Cons l lines)
  show ?case
    using Cons.IH [of "acc @ [c]" for c] Cons.IH [of "[c]" for c] Cons.IH [of acc]
    by (simp add: Let_def)
qed

lemma GetContainers_loop_Cons:
  "GetContainers_loop U (l # lines) [] =
     GetContainers_loop U [l] [] @ GetContainers_loop U lines []"
  using GetContainers_loop_acc [of U lines "[c]" for c]
  by (simp add: Let_def)

lemma GetContainers_loop_concat:
  "GetContainers_loop U lines [] = concat (map (\<lambda>l. GetContainers_loop U [l] []) lines)"
proof (induction lines)
  case Nil
  show ?case by simp
next
  case (Cons l lines)
  show ?case
    unfolding GetContainers_loop_Cons [of U l lines] Cons.IH by simp
qed

lemma GetContainers_loop_single:
  "GetContainers_loop U [l] [] =
     (let line = TrimSpace l; parts = Split line (CHR ''|'') in
       if line \<noteq> [] \<and> length parts \<ge> 5 then
         [\<lparr>ID = TrimSpace (parts ! 0),
           Name = TrimSpace (parts ! 1),
           Image = TrimSpace (parts ! 2),
           Status = TrimSpace (parts ! 3),
           State = getStateFromStatus U (TrimSpace (parts ! 3)),
           Created = TrimSpace (parts ! 4),
           Ports = (if length parts = 5 then [] else TrimSpace (parts ! 5))\<rparr>]
       else [])"
  by (auto simp: Let_def)

subsection \<open>What \<open>TrimSpace\<close> leaves\<close>

lemma leadingSpace_None_iff:
  "leadingSpace s = None \<longleftrightarrow> \<not> (\<exists>w \<in> set spaceRunes. prefix w s)"
  unfolding leadingSpace_def by (auto simp: find_None_iff)

lemma trailingSpace_None_iff:
  "trailingSpace s = None \<longleftrightarrow> \<not> (\<exists>w \<in> set spaceRunes. suffix w s)"
  unfolding trailingSpace_def by (auto simp: find_None_iff)

lemma leadingSpace_TrimLeft: "leadingSpace (TrimLeft s) = None"
proof (induction s rule: TrimLeft.induct)
  case (1 s)
  show ?case
  proof (cases "leadingSpace s")
    case None
    then show ?thesis by (simp add: TrimLeft.simps [of s])
  next
    case (Some w)
    with 1 show ?thesis by (simp add: TrimLeft.simps [of s])
  qed
qed

lemma trailingSpace_TrimRight: "trailingSpace (TrimRight s) = None"
proof (induction s rule: TrimRight.induct)
  case (1 s)
  show ?case
  proof (cases "trailingSpace s")
    case None
    then show ?thesis by (simp add: TrimRight.simps [of s])
  next
    case (Some w)
    with 1 show ?thesis by (simp add: TrimRight.simps [of s])
  qed
qed

lemma prefix_TrimRight: "prefix (TrimRight s) s"
proof (induction s rule: TrimRight.induct)
  case (1 s)
  show ?case
  proof (cases "trailingSpace s")
    case None
    then show ?thesis by (simp add: TrimRight.simps [of s])
  next
    case (Some w)
    with 1 have "prefix (TrimRight (take (length s - length w) s)) (take (length s - length w) s)"
      by simp
    moreover have "prefix (take (length s - length w) s) s"
      by (rule take_is_prefix)
    ultimately have "prefix (TrimRight (take (length s - length w) s)) s"
      by (rule prefix_order.trans)
    with Some show ?thesis by (simp add: TrimRight.simps [of s])
  qed
qed

lemma leadingSpace_prefix:
  assumes "leadingSpace s = None" and "prefix r s"
  shows "leadingSpace r = None"
  using assms unfolding leadingSpace_None_iff
  by (meson prefix_order.trans)

lemma TrimSpace_trimmed:
  "leadingSpace (TrimSpace s) = None \<and> trailingSpace (TrimSpace s) = None"
  unfolding TrimSpace_def
  using leadingSpace_prefix [OF leadingSpace_TrimLeft prefix_TrimRight]
    trailingSpace_TrimRight by blast

lemma TrimSpace_Nil: "TrimSpace [] = []"
  by code_simp

lemma leadingSpace_rune:
  "w \<in> set spaceRunes \<Longrightarrow> leadingSpace (w @ x) = Some w"
  unfolding spaceRunes_def leadingSpace_def
  apply (simp only: list.set insert_iff empty_iff)
  apply (elim disjE)
  apply simp_all
  done

lemma bar_not_space: "w \<in> set spaceRunes \<Longrightarrow> CHR ''|'' \<notin> set w"
  unfolding spaceRunes_def by auto

lemma TrimLeft_spaces:
  "set ws \<subseteq> set spaceRunes \<Longrightarrow> TrimLeft (concat ws @ r) = TrimLeft r"
proof (induction ws)
  case Nil
  show ?case by simp
next
  case (Cons w ws)
  then have w: "w \<in> set spaceRunes" and ws: "set ws \<subseteq> set spaceRunes" by simp_all
  have "leadingSpace (w @ (concat ws @ r)) = Some w"
    using w by (rule leadingSpace_rune)
  then have "TrimLeft (w @ (concat ws @ r)) = TrimLeft (concat ws @ r)"
    by (simp add: TrimLeft.simps [of "w @ (concat ws @ r)"])
  with Cons.IH [OF ws] show ?case by simp
qed

lemma TrimLeft_bar: "TrimLeft (CHR ''|'' # r) = CHR ''|'' # r"
proof -
  have "leadingSpace (CHR ''|'' # r) = None"
    unfolding spaceRunes_def leadingSpace_def by simp
  then show ?thesis by (simp add: TrimLeft.simps [of "CHR ''|'' # r"])
qed

lemma count_bar_TrimRight:
  "count_list (TrimRight s) (CHR ''|'') = count_list s (CHR ''|'')"
proof (induction s rule: TrimRight.induct)
  case (1 s)
  show ?case
  proof (cases "trailingSpace s")
    case None
    then show ?thesis by (simp add: TrimRight.simps [of s])
  next
    case (Some w)
    then have w: "w \<in> set spaceRunes" and "suffix w s"
      by (simp_all add: trailingSpace_SomeD)
    then have s: "s = take (length s - length w) s @ w"
      by (auto simp: suffix_def)
    have "count_list w (CHR ''|'') = 0"
      using bar_not_space [OF w] by simp
    then have "count_list (take (length s - length w) s @ w) (CHR ''|'') =
        count_list (take (length s - length w) s) (CHR ''|'')"
      by simp
    with s have "count_list s (CHR ''|'') = count_list (take (length s - length w) s) (CHR ''|'')"
      by simp
    with 1 Some show ?thesis by (simp add: TrimRight.simps [of s])
  qed
qed

lemma count_bar_TrimLeft:
  "count_list (TrimLeft s) (CHR ''|'') = count_list s (CHR ''|'')"
proof (induction s rule: TrimLeft.induct)
  case (1 s)
  show ?case
  proof (cases "leadingSpace s")
    case None
    then show ?thesis by (simp add: TrimLeft.simps [of s])
  next
    case (Some w)
    then have w: "w \<in> set spaceRunes" and "prefix w s"
      by (simp_all add: leadingSpace_SomeD)
    then have s: "s = w @ drop (length w) s"
      by (auto simp: prefix_def)
    have "count_list w (CHR ''|'') = 0"
      using bar_not_space [OF w] by simp
    then have "count_list (w @ drop (length w) s) (CHR ''|'') =
        count_list (drop (length w) s) (CHR ''|'')"
      by simp
    with s have "count_list s (CHR ''|'') = count_list (drop (length w) s) (CHR ''|'')"
      by simp
    with 1 Some show ?thesis by (simp add: TrimLeft.simps [of s])
  qed
qed

lemma length_Split: "length (Split s c) = Suc (count_list s c)"
proof (induction s)
  case Nil
  show ?case by simp
next
  case (Cons x xs)
  then obtain p ps where "Split xs c = p # ps" and "length ps = count_list xs c"
    by (cases "Split xs c") simp_all
  then show ?case by simp
qed

lemma fields_TrimSpace:
  "length (Split (TrimSpace l) (CHR ''|'')) = length (Split l (CHR ''|''))"
  by (simp add: length_Split TrimSpace_def count_bar_TrimRight count_bar_TrimLeft)

lemma Split_first_field:
  "2 \<le> length (Split l c) \<Longrightarrow> \<exists>r. l = hd (Split l c) @ c # r"
proof (induction l)
  case Nil
  then show ?case by simp
next
  case (Cons x xs)
  show ?case
  proof (cases "x = c")
    case True
    then show ?thesis by simp
  next
    case False
    obtain p ps where sp: "Split xs c = p # ps"
      using length_Split [of xs c] by (cases "Split xs c") simp_all
    with False Cons.prems have "2 \<le> length (Split xs c)" by simp
    from Cons.IH [OF this] sp obtain r where "xs = p @ c # r" by auto
    with False sp show ?thesis by simp
  qed
qed

lemma TrimSpace_fixed:
  assumes "leadingSpace s = None" and "trailingSpace s = None"
  shows "TrimSpace s = s"
  using assms by (simp add: TrimSpace_def TrimLeft.simps [of s] TrimRight.simps [of s])

lemma TrimSpace_idem: "TrimSpace (TrimSpace s) = TrimSpace s"
  using TrimSpace_trimmed [of s] by (simp add: TrimSpace_fixed)

lemma TrimLeft_decomp:
  "\<exists>ws. set ws \<subseteq> set spaceRunes \<and> s = concat ws @ TrimLeft s"
proof (induction s rule: TrimLeft.induct)
  case (1 s)
  show ?case
  proof (cases "leadingSpace s")
    case None
    then have "s = concat [] @ TrimLeft s" by (simp add: TrimLeft.simps [of s])
    then show ?thesis by (intro exI [of _ "[]"]) simp
  next
    case (Some w)
    then have w: "w \<in> set spaceRunes" and "prefix w s"
      by (simp_all add: leadingSpace_SomeD)
    then have s: "s = w @ drop (length w) s" by (auto simp: prefix_def)
    from 1 [OF Some] obtain ws where ws: "set ws \<subseteq> set spaceRunes"
      and d: "drop (length w) s = concat ws @ TrimLeft (drop (length w) s)" by blast
    have t: "TrimLeft s = TrimLeft (drop (length w) s)"
      using Some by (simp add: TrimLeft.simps [of s])
    have "s = w @ concat ws @ TrimLeft (drop (length w) s)"
      using s d by simp
    then have "s = concat (w # ws) @ TrimLeft s" by (simp add: t)
    moreover have "set (w # ws) \<subseteq> set spaceRunes" using w ws by simp
    ultimately show ?thesis by blast
  qed
qed

lemma TrimRight_decomp:
  "\<exists>ws. set ws \<subseteq> set spaceRunes \<and> s = TrimRight s @ concat ws"
proof (induction s rule: TrimRight.induct)
  case (1 s)
  show ?case
  proof (cases "trailingSpace s")
    case None
    then have "s = TrimRight s @ concat []" by (simp add: TrimRight.simps [of s])
    then show ?thesis by (intro exI [of _ "[]"]) simp
  next
    case (Some w)
    then have w: "w \<in> set spaceRunes" and "suffix w s"
      by (simp_all add: trailingSpace_SomeD)
    then have s: "s = take (length s - length w) s @ w" by (auto simp: suffix_def)
    from 1 [OF Some] obtain ws where ws: "set ws \<subseteq> set spaceRunes"
      and d: "take (length s - length w) s =
                TrimRight (take (length s - length w) s) @ concat ws" by blast
    have t: "TrimRight s = TrimRight (take (length s - length w) s)"
      using Some by (simp add: TrimRight.simps [of s])
    have "s = (TrimRight (take (length s - length w) s) @ concat ws) @ w"
      using s d by simp
    then have "s = TrimRight s @ concat (ws @ [w])" by (simp add: t)
    moreover have "set (ws @ [w]) \<subseteq> set spaceRunes" using w ws by simp
    ultimately show ?thesis by blast
  qed
qed

lemma TrimSpace_decomp:
  "\<exists>ws ws'. set ws \<subseteq> set spaceRunes \<and> set ws' \<subseteq> set spaceRunes
      \<and> l = concat ws @ TrimSpace l @ concat ws'"
proof -
  obtain ws where ws: "set ws \<subseteq> set spaceRunes" "l = concat ws @ TrimLeft l"
    using TrimLeft_decomp by blast
  obtain ws' where ws': "set ws' \<subseteq> set spaceRunes"
      "TrimLeft l = TrimRight (TrimLeft l) @ concat ws'"
    using TrimRight_decomp by blast
  from ws(2) ws'(2) have "l = concat ws @ TrimSpace l @ concat ws'"
    by (simp add: TrimSpace_def)
  with ws(1) ws'(1) show ?thesis by blast
qed

lemma TrimSpace_spaces:
  assumes "set ws \<subseteq> set spaceRunes"
  shows "TrimSpace (concat ws) = []"
proof -
  have "TrimLeft (concat ws @ []) = TrimLeft []"
    using assms by (rule TrimLeft_spaces)
  then show ?thesis
    using TrimSpace_Nil by (simp add: TrimSpace_def)
qed

lemma TrimSpace_empty_iff:
  "TrimSpace l = [] \<longleftrightarrow> (\<exists>ws. set ws \<subseteq> set spaceRunes \<and> l = concat ws)"
proof
  assume e: "TrimSpace l = []"
  obtain ws ws' where "set ws \<subseteq> set spaceRunes" "set ws' \<subseteq> set spaceRunes"
    "l = concat ws @ TrimSpace l @ concat ws'"
    using TrimSpace_decomp by blast
  with e have "set (ws @ ws') \<subseteq> set spaceRunes" and "l = concat (ws @ ws')" by simp_all
  then show "\<exists>ws. set ws \<subseteq> set spaceRunes \<and> l = concat ws" by blast
next
  assume "\<exists>ws. set ws \<subseteq> set spaceRunes \<and> l = concat ws"
  then show "TrimSpace l = []" using TrimSpace_spaces by blast
qed

lemma LogContainers_loop_concat:
  "LogContainers_loop lines [] = concat (map (\<lambda>l. LogContainers_loop [l] []) lines)"
  unfolding LogContainers_loop_acc [of _ "[]"]
  by (induction lines) simp_all

text \<open>
  C1. The structured listing is parsed line by line. A line whose trimmed text is not
  empty and splits on \<open>|\<close> into at least 5 fields gives exactly one record, with id,
  name, image, status and created from fields 1 to 5 and ports from field 6, or the
  empty string when there is no field 6. Any other line gives no record, and the
  parse goes on with the next line. The result is the concatenation, in order, of what
  the lines give. A listing of one full line and one line of two fields gives the one
  record of the full line.
\<close>

theorem GetContainers_loop_per_line:
  "GetContainers_loop U (Split out (CHR 0x0A)) [] =
     concat (map (\<lambda>l.
       let line = TrimSpace l; parts = Split line (CHR ''|'') in
       if line \<noteq> [] \<and> length parts \<ge> 5 then
         [\<lparr>ID = TrimSpace (parts ! 0),
           Name = TrimSpace (parts ! 1),
           Image = TrimSpace (parts ! 2),
           Status = TrimSpace (parts ! 3),
           State = getStateFromStatus U (TrimSpace (parts ! 3)),
           Created = TrimSpace (parts ! 4),
           Ports = (if length parts = 5 then [] else TrimSpace (parts ! 5))\<rparr>]
       else []) (Split out (CHR 0x0A)))
   \<and> GetContainers_loop U
        (Split ''abc123|web|nginx:latest|Up 2 hours|2024-01-01|80/tcp\<newline>short|line\<newline>''
           (CHR 0x0A)) [] =
       [\<lparr>ID = ''abc123'', Name = ''web'', Image = ''nginx:latest'', Status = ''Up 2 hours'',
         State = ''running'', Created = ''2024-01-01'', Ports = ''80/tcp''\<rparr>]"
proof
  show "GetContainers_loop U (Split out (CHR 0x0A)) [] =
     concat (map (\<lambda>l.
       let line = TrimSpace l; parts = Split line (CHR ''|'') in
       if line \<noteq> [] \<and> length parts \<ge> 5 then
         [\<lparr>ID = TrimSpace (parts ! 0),
           Name = TrimSpace (parts ! 1),
           Image = TrimSpace (parts ! 2),
           Status = TrimSpace (parts ! 3),
           State = getStateFromStatus U (TrimSpace (parts ! 3)),
           Created = TrimSpace (parts ! 4),
           Ports = (if length parts = 5 then [] else TrimSpace (parts ! 5))\<rparr>]
       else []) (Split out (CHR 0x0A)))"
    unfolding GetContainers_loop_concat [of U "Split out (CHR 0x0A)"] GetContainers_loop_single
    by (rule refl)
  show "GetContainers_loop U
        (Split ''abc123|web|nginx:latest|Up 2 hours|2024-01-01|80/tcp\<newline>short|line\<newline>''
           (CHR 0x0A)) [] =
       [\<lparr>ID = ''abc123'', Name = ''web'', Image = ''nginx:latest'', Status = ''Up 2 hours'',
         State = ''running'', Created = ''2024-01-01'', Ports = ''80/tcp''\<rparr>]"
    by code_simp
qed

text \<open>
  C2. The run-state is \<open>running\<close> exactly when the lower-case form of the status
  contains \<open>up\<close>, that is, has the form \<open>a @ ''up'' @ b\<close>, and \<open>stopped\<close> exactly when
  it does not; the three statuses of the specification come out as it says.
\<close>

theorem getStateFromStatus_up:
  "(getStateFromStatus U s = ''running'' \<longleftrightarrow> (\<exists>a b. ToLower U s = a @ ''up'' @ b))
   \<and> (getStateFromStatus U s = ''stopped'' \<longleftrightarrow> \<not> (\<exists>a b. ToLower U s = a @ ''up'' @ b))
   \<and> getStateFromStatus U ''Up 3 days'' = ''running''
   \<and> getStateFromStatus U ''UP'' = ''running''
   \<and> getStateFromStatus U ''Exited (0) 2 hours ago'' = ''stopped''"
proof -
  have "getStateFromStatus U ''Up 3 days'' = ''running''" by code_simp
  moreover have "getStateFromStatus U ''UP'' = ''running''" by code_simp
  moreover have "getStateFromStatus U ''Exited (0) 2 hours ago'' = ''stopped''" by code_simp
  moreover have "getStateFromStatus U s = ''running'' \<longleftrightarrow> Contains (ToLower U s) ''up''"
    by (simp add: getStateFromStatus_def)
  moreover have "getStateFromStatus U s = ''stopped'' \<longleftrightarrow> \<not> Contains (ToLower U s) ''up''"
    by (simp add: getStateFromStatus_def)
  ultimately show ?thesis
    unfolding Contains_iff [of "ToLower U s" "''up''"] by blast
qed

text \<open>
  C8. Every line of the log tail is trimmed: it is a run of white-space runes, the
  kept text, and a run of white-space runes, where the kept text neither starts nor
  ends with a white-space rune. A line whose kept text is empty, that is a line of
  white space only, gives no record; every other line gives exactly one record, which
  holds the kept text as it is (no splitting into fields). The records come in the
  order of the lines. The output \<open>line1\<close>, empty line, \<open>line2\<close> gives the two
  records \<open>line1\<close> and \<open>line2\<close>; a padded line loses its padding and a line of
  blanks is dropped.
\<close>

theorem LogContainers_loop_lines:
  "LogContainers_loop (Split out (CHR 0x0A)) [] =
     map (\<lambda>l. \<lparr>Log = l\<rparr>) (filter (\<lambda>l. l \<noteq> []) (map TrimSpace (Split out (CHR 0x0A))))
   \<and> (\<forall>l \<in> set (Split out (CHR 0x0A)).
         (\<exists>ws. set ws \<subseteq> set spaceRunes \<and> l = concat ws \<and> LogContainers_loop [l] [] = [])
       \<or> (\<exists>ws t ws'. set ws \<subseteq> set spaceRunes \<and> set ws' \<subseteq> set spaceRunes
              \<and> l = concat ws @ t @ concat ws' \<and> t \<noteq> []
              \<and> leadingSpace t = None \<and> trailingSpace t = None
              \<and> LogContainers_loop [l] [] = [\<lparr>Log = t\<rparr>]))
   \<and> LogContainers_loop (Split out (CHR 0x0A)) [] =
       concat (map (\<lambda>l. LogContainers_loop [l] []) (Split out (CHR 0x0A)))
   \<and> LogContainers_loop (Split ''line1\<newline>\<newline>line2\<newline>'' (CHR 0x0A)) [] =
       [\<lparr>Log = ''line1''\<rparr>, \<lparr>Log = ''line2''\<rparr>]
   \<and> LogContainers_loop (Split ''  padded line \<newline>   \<newline>last'' (CHR 0x0A)) [] =
       [\<lparr>Log = ''padded line''\<rparr>, \<lparr>Log = ''last''\<rparr>]"
proof (intro conjI ballI)
  show "LogContainers_loop (Split out (CHR 0x0A)) [] =
     map (\<lambda>l. \<lparr>Log = l\<rparr>) (filter (\<lambda>l. l \<noteq> []) (map TrimSpace (Split out (CHR 0x0A))))"
    using LogContainers_loop_acc [of "Split out (CHR 0x0A)" "[]"] by simp
  show "LogContainers_loop (Split out (CHR 0x0A)) [] =
       concat (map (\<lambda>l. LogContainers_loop [l] []) (Split out (CHR 0x0A)))"
    by (rule LogContainers_loop_concat)
  show "LogContainers_loop (Split ''line1\<newline>\<newline>line2\<newline>'' (CHR 0x0A)) [] =
       [\<lparr>Log = ''line1''\<rparr>, \<lparr>Log = ''line2''\<rparr>]"
    by code_simp
  show "LogContainers_loop (Split ''  padded line \<newline>   \<newline>last'' (CHR 0x0A)) [] =
       [\<lparr>Log = ''padded line''\<rparr>, \<lparr>Log = ''last''\<rparr>]"
    by code_simp
next
  fix l
  have one: "LogContainers_loop [l] [] = (if TrimSpace l = [] then [] else [\<lparr>Log = TrimSpace l\<rparr>])"
    unfolding LogContainers_loop_acc [of "[l]" "[]"] by simp
  show "(\<exists>ws. set ws \<subseteq> set spaceRunes \<and> l = concat ws \<and> LogContainers_loop [l] [] = [])
       \<or> (\<exists>ws t ws'. set ws \<subseteq> set spaceRunes \<and> set ws' \<subseteq> set spaceRunes
              \<and> l = concat ws @ t @ concat ws' \<and> t \<noteq> []
              \<and> leadingSpace t = None \<and> trailingSpace t = None
              \<and> LogContainers_loop [l] [] = [\<lparr>Log = t\<rparr>])"
  proof (cases "TrimSpace l = []")
    case True
    then obtain ws where "set ws \<subseteq> set spaceRunes" "l = concat ws"
      unfolding TrimSpace_empty_iff by blast
    with True one show ?thesis by auto
  next
    case False
    obtain ws ws' where "set ws \<subseteq> set spaceRunes" "set ws' \<subseteq> set spaceRunes"
      "l = concat ws @ TrimSpace l @ concat ws'"
      using TrimSpace_decomp by blast
    with False one TrimSpace_trimmed [of l] show ?thesis by auto
  qed
qed

theorem LogContainers_loop_lines_witness:
  "''   '' \<in> set (Split ''  padded line \<newline>   \<newline>last'' (CHR 0x0A))
   \<and> length (LogContainers_loop [''   ''] []) \<le> 1
   \<and> LogContainers_loop [''   ''] [] = []
   \<and> LogContainers_loop [''  padded line ''] [] = [\<lparr>Log = ''padded line''\<rparr>]"
proof -
  let ?out = "''  padded line \<newline>   \<newline>last''"
  have mem: "''   '' \<in> set (Split ?out (CHR 0x0A))" by code_simp
  have a: "LogContainers_loop [''   ''] [] = []" by code_simp
  have b: "LogContainers_loop [''  padded line ''] [] = [\<lparr>Log = ''padded line''\<rparr>]"
    by code_simp
  note t = bspec [OF conjunct1 [OF conjunct2 [OF LogContainers_loop_lines [of ?out]]] mem]
  from t have "length (LogContainers_loop [''   ''] []) \<le> 1" by auto
  with mem a b show ?thesis by simp
qed

text \<open>
  C9. A line with at least 5 fields whose first field, the identifier, is empty or
  consists of white-space runes only is not rejected: it gives one record, and the
  identifier of that record is the empty string.
\<close>

theorem GetContainers_loop_blank_identifier:
  assumes fields: "5 \<le> length (Split l (CHR ''|''))"
    and blank: "hd (Split l (CHR ''|'')) = concat ws" "set ws \<subseteq> set spaceRunes"
  shows "\<exists>c. GetContainers_loop U (l # lines) acc = acc @ c # GetContainers_loop U lines []
             \<and> ID c = []"
proof -
  from fields have "2 \<le> length (Split l (CHR ''|''))" by simp
  from Split_first_field [OF this] blank(1) obtain r where l: "l = concat ws @ CHR ''|'' # r"
    by auto
  have left: "TrimLeft l = CHR ''|'' # r"
    unfolding l using TrimLeft_spaces [OF blank(2)] TrimLeft_bar by simp
  define line where "line = TrimSpace l"
  have line: "line = TrimRight (CHR ''|'' # r)"
    by (simp add: line_def TrimSpace_def left)
  then have "count_list line (CHR ''|'') = count_list (CHR ''|'' # r) (CHR ''|'')"
    by (simp only: count_bar_TrimRight)
  then have "line \<noteq> []" by auto
  moreover have "prefix line (CHR ''|'' # r)"
    unfolding line by (rule prefix_TrimRight)
  ultimately obtain r' where r': "line = CHR ''|'' # r'"
    by (cases line) (auto simp: prefix_def)
  have first: "Split line (CHR ''|'') ! 0 = []"
    unfolding r' by simp
  have n: "5 \<le> length (Split line (CHR ''|''))"
    unfolding line_def fields_TrimSpace by (rule fields)
  have "line \<noteq> []" by (simp add: r')
  with n first have "\<exists>c. GetContainers_loop U [l] [] = [c] \<and> ID c = []"
    unfolding GetContainers_loop_single [of U l] line_def [symmetric]
    by (simp add: Let_def TrimSpace_Nil)
  then obtain c where c: "GetContainers_loop U [l] [] = [c]" "ID c = []" by blast
  have "GetContainers_loop U (l # lines) acc = acc @ GetContainers_loop U (l # lines) []"
    by (rule GetContainers_loop_acc)
  also have "\<dots> = acc @ c # GetContainers_loop U lines []"
    unfolding GetContainers_loop_Cons [of U l lines] c by simp
  finally show ?thesis using c(2) by blast
qed

theorem GetContainers_loop_blank_identifier_witness:
  "hd (Split ''  |web|nginx|Exited (0) 2 hours ago|2024-01-01'' (CHR ''|'')) = ''  ''
   \<and> length (GetContainers_loop (\<lambda>s. s) [''  |web|nginx|Exited (0) 2 hours ago|2024-01-01''] []) = 1
   \<and> ID (hd (GetContainers_loop (\<lambda>s. s) [''  |web|nginx|Exited (0) 2 hours ago|2024-01-01''] [])) = []"
proof -
  let ?l = "''  |web|nginx|Exited (0) 2 hours ago|2024-01-01''"
  have f: "5 \<le> length (Split ?l (CHR ''|''))" by code_simp
  have h: "hd (Split ?l (CHR ''|'')) = ''  ''" by code_simp
  then have b: "hd (Split ?l (CHR ''|'')) = concat [[CHR 0x20], [CHR 0x20]]" by simp
  have w: "set [[CHR 0x20], [CHR 0x20]] \<subseteq> set spaceRunes"
    by (simp add: spaceRunes_def)
  from GetContainers_loop_blank_identifier [OF f b w, of "\<lambda>s. s" "[]" "[]"]
  obtain c where "GetContainers_loop (\<lambda>s. s) [?l] [] = [c]" and "ID c = []" by auto
  with h show ?thesis by simp
qed

text \<open>
  C10. In every record of the listing, each of identifier, name, image, status,
  created and ports is the trimmed text of its field of the trimmed line (ports is
  empty when there is no sixth field), so it neither starts nor ends with a white-space
  rune and trimming it again changes nothing; the run-state is derived from the trimmed
  status. The line \<open> abc | web | nginx | Up | now \<close> gives the identifier \<open>abc\<close> and
  the name \<open>web\<close>.
\<close>

theorem GetContainers_loop_fields_trimmed:
  "(\<forall>c \<in> set (GetContainers_loop U (Split out (CHR 0x0A)) []).
      (\<forall>f \<in> {ID c, Name c, Image c, Status c, Created c, Ports c}.
          leadingSpace f = None \<and> trailingSpace f = None \<and> TrimSpace f = f)
      \<and> State c = getStateFromStatus U (Status c)
      \<and> (\<exists>l \<in> set (Split out (CHR 0x0A)).
            ID c = TrimSpace (Split (TrimSpace l) (CHR ''|'') ! 0)
          \<and> Name c = TrimSpace (Split (TrimSpace l) (CHR ''|'') ! 1)
          \<and> Image c = TrimSpace (Split (TrimSpace l) (CHR ''|'') ! 2)
          \<and> Status c = TrimSpace (Split (TrimSpace l) (CHR ''|'') ! 3)
          \<and> Created c = TrimSpace (Split (TrimSpace l) (CHR ''|'') ! 4)
          \<and> Ports c = (if length (Split (TrimSpace l) (CHR ''|'')) = 5 then []
                        else TrimSpace (Split (TrimSpace l) (CHR ''|'') ! 5))))
   \<and> GetContainers_loop U (Split '' abc | web | nginx | Up | now '' (CHR 0x0A)) [] =
       [\<lparr>ID = ''abc'', Name = ''web'', Image = ''nginx'', Status = ''Up'',
         State = ''running'', Created = ''now'', Ports = []\<rparr>]"
proof (intro conjI ballI)
  fix c f
  assume c: "c \<in> set (GetContainers_loop U (Split out (CHR 0x0A)) [])"
  then obtain l where l: "l \<in> set (Split out (CHR 0x0A))" "c \<in> set (GetContainers_loop U [l] [])"
    unfolding GetContainers_loop_concat [of U "Split out (CHR 0x0A)"] by auto
  let ?parts = "Split (TrimSpace l) (CHR ''|'')"
  from l(2) have rec: "c = \<lparr>ID = TrimSpace (?parts ! 0),
           Name = TrimSpace (?parts ! 1),
           Image = TrimSpace (?parts ! 2),
           Status = TrimSpace (?parts ! 3),
           State = getStateFromStatus U (TrimSpace (?parts ! 3)),
           Created = TrimSpace (?parts ! 4),
           Ports = (if length ?parts = 5 then [] else TrimSpace (?parts ! 5))\<rparr>"
    unfolding GetContainers_loop_single [of U l]
    by (simp add: Let_def split: if_splits)
  show "State c = getStateFromStatus U (Status c)"
    by (simp add: rec)
  show "\<exists>l \<in> set (Split out (CHR 0x0A)).
            ID c = TrimSpace (Split (TrimSpace l) (CHR ''|'') ! 0)
          \<and> Name c = TrimSpace (Split (TrimSpace l) (CHR ''|'') ! 1)
          \<and> Image c = TrimSpace (Split (TrimSpace l) (CHR ''|'') ! 2)
          \<and> Status c = TrimSpace (Split (TrimSpace l) (CHR ''|'') ! 3)
          \<and> Created c = TrimSpace (Split (TrimSpace l) (CHR ''|'') ! 4)
          \<and> Ports c = (if length (Split (TrimSpace l) (CHR ''|'')) = 5 then []
                        else TrimSpace (Split (TrimSpace l) (CHR ''|'') ! 5))"
    using l(1) rec by (intro bexI [of _ l]) simp_all
  assume "f \<in> {ID c, Name c, Image c, Status c, Created c, Ports c}"
  moreover have "leadingSpace [] = None \<and> trailingSpace [] = None"
    using TrimSpace_trimmed [of "[]"] by (simp add: TrimSpace_Nil)
  ultimately have "leadingSpace f = None \<and> trailingSpace f = None"
    unfolding rec by (auto simp: TrimSpace_trimmed split: if_splits)
  then show "leadingSpace f = None" and "trailingSpace f = None" and "TrimSpace f = f"
    by (simp_all add: TrimSpace_fixed)
next
  show "GetContainers_loop U (Split '' abc | web | nginx | Up | now '' (CHR 0x0A)) [] =
       [\<lparr>ID = ''abc'', Name = ''web'', Image = ''nginx'', Status = ''Up'',
         State = ''running'', Created = ''now'', Ports = []\<rparr>]"
    by code_simp
qed

theorem GetContainers_loop_fields_trimmed_witness:
  "GetContainers_loop (\<lambda>s. s)
     (Split ''abc123 | web |nginx:latest| Up 2 hours |2024-01-01| 80/tcp \<newline>'' (CHR 0x0A)) [] =
     [\<lparr>ID = ''abc123'', Name = ''web'', Image = ''nginx:latest'', Status = ''Up 2 hours'',
       State = ''running'', Created = ''2024-01-01'', Ports = ''80/tcp''\<rparr>]
   \<and> leadingSpace ''web'' = None \<and> trailingSpace ''web'' = None
   \<and> leadingSpace ''Up 2 hours'' = None \<and> trailingSpace ''Up 2 hours'' = None
   \<and> TrimSpace ''80/tcp'' = ''80/tcp''
   \<and> getStateFromStatus (\<lambda>s. s) ''Up 2 hours'' = ''running''"
proof -
  let ?out = "''abc123 | web |nginx:latest| Up 2 hours |2024-01-01| 80/tcp \<newline>''"
  have r: "GetContainers_loop (\<lambda>s. s) (Split ?out (CHR 0x0A)) [] =
     [\<lparr>ID = ''abc123'', Name = ''web'', Image = ''nginx:latest'', Status = ''Up 2 hours'',
       State = ''running'', Created = ''2024-01-01'', Ports = ''80/tcp''\<rparr>]"
    by code_simp
  let ?c = "\<lparr>ID = ''abc123'', Name = ''web'', Image = ''nginx:latest'', Status = ''Up 2 hours'',
       State = ''running'', Created = ''2024-01-01'', Ports = ''80/tcp''\<rparr>"
  have mem: "?c \<in> set (GetContainers_loop (\<lambda>s. s) (Split ?out (CHR 0x0A)) [])"
    unfolding r by simp
  note t = bspec [OF conjunct1 [OF GetContainers_loop_fields_trimmed [of "\<lambda>s. s" ?out]] mem]
  from t have "\<forall>f \<in> {ID ?c, Name ?c, Image ?c, Status ?c, Created ?c, Ports ?c}.
          leadingSpace f = None \<and> trailingSpace f = None \<and> TrimSpace f = f"
    by (rule conjunct1)
  moreover from t have "State ?c = getStateFromStatus (\<lambda>s. s) (Status ?c)"
    by (rule conjunct1 [OF conjunct2])
  ultimately have "leadingSpace ''web'' = None \<and> trailingSpace ''web'' = None
   \<and> leadingSpace ''Up 2 hours'' = None \<and> trailingSpace ''Up 2 hours'' = None
   \<and> TrimSpace ''80/tcp'' = ''80/tcp''
   \<and> getStateFromStatus (\<lambda>s. s) ''Up 2 hours'' = ''running''"
    by simp
  with r show ?thesis by (rule conjI)
qed

section \<open>Properties of the command sequences\<close>

lemma executeSSHCommand_Inr:
  "executeSSHCommand ssh dm c st = (Inr out, st') \<Longrightarrow>
     issued st' = issued st @ [c] \<and> dockerManager st' = dockerManager st"
  unfolding executeSSHCommand_def
  by (auto simp: Let_def split: prod.splits ssh_outcome.splits if_splits)

lemma executeSSHCommand_Inl:
  "executeSSHCommand ssh dm c st = (Inl e, st') \<Longrightarrow>
     (issued st' = issued st \<or> issued st' = issued st @ [c])
     \<and> dockerManager st' = dockerManager st"
  unfolding executeSSHCommand_def
  by (auto simp: Let_def split: prod.splits ssh_outcome.splits if_splits)






text \<open>
  What a listing call answers once the presence probe, the health probe and the raw
  listing have succeeded, for any host.
\<close>

lemma containersHandler_after_raw_listing:
  assumes "dockerManager st = Some dm"
    and "executeSSHCommand ssh dm ''which docker'' st = (Inr o1, st1)"
    and "executeSSHCommand ssh dm ''docker info'' st1 = (Inr o2, st2)"
    and "executeSSHCommand ssh dm ''docker ps -a'' st2 = (Inr output, st3)"
  shows "(TrimSpace output = [] \<longrightarrow>
            GetContainers U ssh dm st = (Inl ''Docker ps returned empty output'', st3)
            \<and> containersHandler U ssh r st =
                (FailureContainers ''Docker ps returned empty output'' (Slice []), st3))
       \<and> (TrimSpace output \<noteq> [] \<longrightarrow>
            (\<forall>formattedOutput st4.
               executeSSHCommand ssh dm structuredListing st3 = (Inr formattedOutput, st4) \<longrightarrow>
               GetContainers_loop U (Split formattedOutput (CHR 0x0A)) [] = [] \<longrightarrow>
               GetContainers U ssh dm st = (Inr NilSlice, st4)
               \<and> containersHandler U ssh r st = (SuccessContainers NilSlice 0, st4)))"
  using assms by (simp add: containersHandler_def GetContainers_def appended_def)

text \<open>
  C4. On a host whose raw listing is empty after trimming, the listing request fails
  with \<open>Docker ps returned empty output\<close>, and the failure carries the empty slice
  \<^verbatim>\<open>[]Container{}\<close>, sent as \<^verbatim>\<open>"containers":[]\<close>. On a host whose raw listing is
  not empty and whose structured listing has no record, the request succeeds with the
  count 0, and the two outcomes differ; but the containers of the success are the nil
  slice, sent as \<^verbatim>\<open>"containers":null\<close>, not the empty sequence: \<^verbatim>\<open>containers\<close> is
  declared nil and nothing is appended to it.
\<close>

theorem containersHandler_zero_records_null:
  "containersHandler (\<lambda>s. s) silentHost listRequest exampleServer =
     (FailureContainers ''Docker ps returned empty output'' (Slice []),
      exampleServer\<lparr>issued := [''which docker'', ''docker info'', ''docker ps -a'']\<rparr>)
   \<and> containersHandler (\<lambda>s. s) healthyHost listRequest exampleServer =
     (SuccessContainers NilSlice 0,
      exampleServer\<lparr>issued := [''which docker'', ''docker info'', ''docker ps -a'',
                                 structuredListing]\<rparr>)
   \<and> fst (containersHandler (\<lambda>s. s) healthyHost listRequest exampleServer) \<noteq>
       SuccessContainers (Slice []) 0"
  by code_simp

text \<open>
  C5, as the code has it. A lifecycle request whose action is none of \<open>start\<close>,
  \<open>stop\<close>, \<open>restart\<close> and \<open>remove\<close> leaves the state of the server as it is, so no
  remote command is issued. The response is \<open>Method not allowed\<close> when the request is
  not a \<open>POST\<close>, \<open>No server configuration found\<close> when it is a \<open>POST\<close> and no server
  is configured, and the failure \<open>Unknown action\<close> followed by the action otherwise.
\<close>

theorem containerActionHandler_unknown_action:
  assumes "vars r ''action'' \<notin> {''start'', ''stop'', ''restart'', ''remove''}"
  shows "containerActionHandler ssh r st =
           (if Method r \<noteq> ''POST'' then HttpError 405 ''Method not allowed''
            else if dockerManager st = None then Failure ''No server configuration found''
            else Failure (''Unknown action: '' @ vars r ''action''),
            st)"
  using assms
  by (auto simp: containerActionHandler_def Let_def split: option.splits)

theorem containerActionHandler_unknown_action_witness:
  "vars pauseRequest ''action'' = ''pause''
   \<and> containerActionHandler healthyHost pauseRequest exampleServer =
       (Failure ''Unknown action: pause'', exampleServer)"
proof -
  have v: "vars pauseRequest ''action'' = ''pause''" by code_simp
  have n: "vars pauseRequest ''action'' \<notin> {''start'', ''stop'', ''restart'', ''remove''}"
    unfolding v by simp
  have m: "Method pauseRequest = ''POST''" by (simp add: pauseRequest_def)
  have d: "dockerManager exampleServer \<noteq> None" by (simp add: exampleServer_def)
  from containerActionHandler_unknown_action [OF n, of healthyHost exampleServer] m d v
  have "containerActionHandler healthyHost pauseRequest exampleServer =
       (Failure ''Unknown action: pause'', exampleServer)"
    by simp
  with v show ?thesis by (rule conjI)
qed

text \<open>
  A \<open>POST\<close> with the action \<open>pause\<close> to a server that has not been configured, and a
  \<open>GET\<close> with that action to a configured one, are not answered \<open>Unknown action\<close>.
\<close>

theorem containerActionHandler_guard_counterexample:
  "Method pauseRequest = ''POST''
   \<and> vars pauseRequest ''action'' = ''pause''
   \<and> containerActionHandler healthyHost pauseRequest freshServer =
       (Failure ''No server configuration found'', freshServer)
   \<and> containerActionHandler healthyHost (pauseRequest\<lparr>Method := ''GET''\<rparr>) exampleServer =
       (HttpError 405 ''Method not allowed'', exampleServer)"
  by code_simp

lemma lifecycle_one_command:
  "errorOnly (executeSSHCommand ssh dm command st) =
     (case ssh (config dm) command (world st) of
        (DialFailed err, w) \<Rightarrow>
          (Some (''SSH connection to '' @ Host (config dm) @ '':'' @ Port (config dm)
                 @ '' failed: '' @ err),
           st\<lparr>world := w\<rparr>)
      | (NewSessionFailed err, w) \<Rightarrow>
          (Some (''SSH session creation failed: '' @ err), st\<lparr>world := w\<rparr>)
      | (RunFailed err errorOutput, w) \<Rightarrow>
          (Some (''command '' @ [CHR 0x27] @ command @ [CHR 0x27] @ '' failed: '' @ err
                 @ (if errorOutput \<noteq> [] then '', stderr: '' @ errorOutput else [])),
           st\<lparr>world := w, issued := issued st @ [command]\<rparr>)
      | (RunOk output, w) \<Rightarrow>
          (None, st\<lparr>world := w, issued := issued st @ [command]\<rparr>))"
  unfolding executeSSHCommand_def errorOnly_def
  by (auto simp: Let_def split: prod.splits ssh_outcome.splits)

text \<open>
  C6, as the code has it. A lifecycle call makes one call of the transport, for the
  command of the operation (\<open>docker start\<close>, \<open>docker stop\<close>, \<open>docker restart\<close> or
  \<open>docker rm -f\<close>, followed by the identifier), with no presence probe before it. It
  returns nil when that command ran to completion without error, and otherwise the
  error of that command as \<^verbatim>\<open>executeSSHCommand\<close> words it; the command counts as issued
  when the session was opened. On a host without \<open>docker\<close>, starting a container
  returns the error of \<open>docker start\<close>.
\<close>

theorem lifecycle_no_probe:
  "(let run = (\<lambda>command.
       case ssh (config dm) command (world st) of
         (DialFailed err, w) \<Rightarrow>
           (Some (''SSH connection to '' @ Host (config dm) @ '':'' @ Port (config dm)
                  @ '' failed: '' @ err),
            st\<lparr>world := w\<rparr>)
       | (NewSessionFailed err, w) \<Rightarrow>
           (Some (''SSH session creation failed: '' @ err), st\<lparr>world := w\<rparr>)
       | (RunFailed err errorOutput, w) \<Rightarrow>
           (Some (''command '' @ [CHR 0x27] @ command @ [CHR 0x27] @ '' failed: '' @ err
                  @ (if errorOutput \<noteq> [] then '', stderr: '' @ errorOutput else [])),
            st\<lparr>world := w, issued := issued st @ [command]\<rparr>)
       | (RunOk output, w) \<Rightarrow>
           (None, st\<lparr>world := w, issued := issued st @ [command]\<rparr>))
    in StartContainer ssh dm containerID st = run (''docker start '' @ containerID)
     \<and> StopContainer ssh dm containerID st = run (''docker stop '' @ containerID)
     \<and> RestartContainer ssh dm containerID st = run (''docker restart '' @ containerID)
     \<and> RemoveContainer ssh dm containerID st = run (''docker rm -f '' @ containerID))
   \<and> StartContainer (scripted []) exampleManager ''abc123'' exampleServer =
       (Some (''command '' @ [CHR 0x27] @ ''docker start abc123'' @ [CHR 0x27]
              @ '' failed: Process exited with status 127, stderr: command not found''),
        exampleServer\<lparr>issued := [''docker start abc123'']\<rparr>)"
proof
  show "let run = (\<lambda>command.
       case ssh (config dm) command (world st) of
         (DialFailed err, w) \<Rightarrow>
           (Some (''SSH connection to '' @ Host (config dm) @ '':'' @ Port (config dm)
                  @ '' failed: '' @ err),
            st\<lparr>world := w\<rparr>)
       | (NewSessionFailed err, w) \<Rightarrow>
           (Some (''SSH session creation failed: '' @ err), st\<lparr>world := w\<rparr>)
       | (RunFailed err errorOutput, w) \<Rightarrow>
           (Some (''command '' @ [CHR 0x27] @ command @ [CHR 0x27] @ '' failed: '' @ err
                  @ (if errorOutput \<noteq> [] then '', stderr: '' @ errorOutput else [])),
            st\<lparr>world := w, issued := issued st @ [command]\<rparr>)
       | (RunOk output, w) \<Rightarrow>
           (None, st\<lparr>world := w, issued := issued st @ [command]\<rparr>))
    in StartContainer ssh dm containerID st = run (''docker start '' @ containerID)
     \<and> StopContainer ssh dm containerID st = run (''docker stop '' @ containerID)
     \<and> RestartContainer ssh dm containerID st = run (''docker restart '' @ containerID)
     \<and> RemoveContainer ssh dm containerID st = run (''docker rm -f '' @ containerID)"
    unfolding Let_def StartContainer_def StopContainer_def RestartContainer_def
      RemoveContainer_def lifecycle_one_command
    by (intro conjI refl)
  show "StartContainer (scripted []) exampleManager ''abc123'' exampleServer =
       (Some (''command '' @ [CHR 0x27] @ ''docker start abc123'' @ [CHR 0x27]
              @ '' failed: Process exited with status 127, stderr: command not found''),
        exampleServer\<lparr>issued := [''docker start abc123'']\<rparr>)"
    by code_simp
qed

text \<open>
  On a host where \<open>which docker\<close> fails, starting and removing a container succeed,
  and the only command issued is the lifecycle command.
\<close>

theorem lifecycle_probe_counterexample:
  "isl (fst (executeSSHCommand noProbeHost exampleManager ''which docker'' exampleServer))
   \<and> StartContainer noProbeHost exampleManager ''abc123'' exampleServer =
       (None, exampleServer\<lparr>issued := [''docker start abc123'']\<rparr>)
   \<and> RemoveContainer noProbeHost exampleManager ''abc123'' exampleServer =
       (None, exampleServer\<lparr>issued := [''docker rm -f abc123'']\<rparr>)"
  by code_simp

text \<open>
  C7, as the code has it. A configuration request is reported successful only after
  the SSH test \<open>whoami && echo 'SSH connection successful'\<close> and the presence test
  \<open>docker --version\<close> have both run without error against the new configuration, in
  that order; these two are the only commands issued.
\<close>

theorem configHandler_success_checks:
  assumes "fst (configHandler ssh r st) = SuccessMessage m"
  shows "\<exists>cfg dm o1 st1 o2 st2.
           Body r = Some cfg
         \<and> dm = \<lparr>config = (if Port cfg = [] then cfg\<lparr>Port := ''22''\<rparr> else cfg)\<rparr>
         \<and> executeSSHCommand ssh dm whoamiTest (st\<lparr>dockerManager := Some dm\<rparr>) = (Inr o1, st1)
         \<and> executeSSHCommand ssh dm ''docker --version'' st1 = (Inr o2, st2)
         \<and> snd (configHandler ssh r st) = st2
         \<and> issued st2 = issued st @ [whoamiTest, ''docker --version'']
         \<and> m = ''Configuration saved successfully''"
proof -
  have post: "Method r = ''POST''"
  proof (rule ccontr)
    assume "Method r \<noteq> ''POST''"
    then have "configHandler ssh r st = (HttpError 405 ''Method not allowed'', st)"
      by (simp add: configHandler_def)
    with assms show False by simp
  qed
  have "Body r \<noteq> None"
  proof
    assume "Body r = None"
    with post have "configHandler ssh r st = (Failure ''Invalid JSON format'', st)"
      by (simp add: configHandler_def)
    with assms show False by simp
  qed
  then obtain cfg where body: "Body r = Some cfg" by blast
  have given: "\<not> (Host cfg = [] \<or> Username cfg = [] \<or> Password cfg = [])"
  proof
    assume "Host cfg = [] \<or> Username cfg = [] \<or> Password cfg = []"
    with post body have "configHandler ssh r st =
        (Failure ''Host, username and password are required'', st)"
      by (simp add: configHandler_def)
    with assms show False by simp
  qed
  define dm where "dm = \<lparr>config = (if Port cfg = [] then cfg\<lparr>Port := ''22''\<rparr> else cfg)\<rparr>"
  obtain r1 st1 where e1:
    "executeSSHCommand ssh dm whoamiTest (st\<lparr>dockerManager := Some dm\<rparr>) = (r1, st1)"
    by (cases "executeSSHCommand ssh dm whoamiTest (st\<lparr>dockerManager := Some dm\<rparr>)")
  obtain r2 st2 where e2: "executeSSHCommand ssh dm ''docker --version'' st1 = (r2, st2)"
    by (cases "executeSSHCommand ssh dm ''docker --version'' st1")
  have unfold: "configHandler ssh r st =
      (case r1 of
         Inl err \<Rightarrow> (Failure (''SSH connection failed: '' @ err), st1)
       | Inr testOutput \<Rightarrow>
           (case r2 of
              Inl err \<Rightarrow> (Failure (''Docker is not available: '' @ err), st2)
            | Inr dockerOutput \<Rightarrow> (SuccessMessage ''Configuration saved successfully'', st2)))"
    using post body given e1 e2 unfolding dm_def
    by (cases r1) (simp_all add: configHandler_def Let_def split del: if_split)
  from assms unfold obtain o1 where r1: "r1 = Inr o1"
    by (cases r1) simp_all
  from assms unfold r1 obtain o2 where r2: "r2 = Inr o2"
    by (cases r2) simp_all
  from assms unfold r1 r2 have m: "m = ''Configuration saved successfully''"
    and st2: "snd (configHandler ssh r st) = st2" by simp_all
  from e1 r1 have "issued st1 = issued st @ [whoamiTest]"
    by (auto dest: executeSSHCommand_Inr)
  with e2 r2 have iss: "issued st2 = issued st @ [whoamiTest, ''docker --version'']"
    by (auto dest: executeSSHCommand_Inr)
  from body dm_def e1 r1 e2 r2 st2 iss m show ?thesis by blast
qed

theorem configHandler_success_checks_witness:
  "fst (configHandler noProbeHost configRequest freshServer) =
     SuccessMessage ''Configuration saved successfully''
   \<and> issued (snd (configHandler noProbeHost configRequest freshServer)) =
     [whoamiTest, ''docker --version'']"
proof -
  have ok: "fst (configHandler noProbeHost configRequest freshServer) =
     SuccessMessage ''Configuration saved successfully''"
    by code_simp
  have "issued freshServer = []" by (simp add: freshServer_def)
  with configHandler_success_checks [OF ok]
  have "issued (snd (configHandler noProbeHost configRequest freshServer)) =
     [whoamiTest, ''docker --version'']"
    by auto
  with ok show ?thesis by (rule conjI)
qed

text \<open>
  On a host where \<open>which docker\<close> and \<open>docker info\<close> fail, the configuration request
  is reported successful all the same, and neither of them has been issued.
\<close>

theorem configHandler_health_counterexample:
  "fst (configHandler noProbeHost configRequest freshServer) =
     SuccessMessage ''Configuration saved successfully''
   \<and> issued (snd (configHandler noProbeHost configRequest freshServer)) =
     [whoamiTest, ''docker --version'']
   \<and> isl (fst (executeSSHCommand noProbeHost exampleManager ''which docker''
                (snd (configHandler noProbeHost configRequest freshServer))))
   \<and> isl (fst (executeSSHCommand noProbeHost exampleManager ''docker info''
                (snd (configHandler noProbeHost configRequest freshServer))))
   \<and> dockerManager (snd (configHandler noProbeHost configRequest freshServer)) =
     Some exampleManager"
  by code_simp

end
